theory Spec2Isabelle
  imports
    Main
    "HOL-Library.Multiset"
    "HOL-Library.Char_ord"
    "HOL-Library.List_Lexorder"
    "HOL-Library.Sublist"
begin

section \<open>makecrates.py: strings, paths and dictionaries\<close>

text \<open>
  Strings are lists of characters. The file names of the device directory are ASCII
  (\<open>stm32f401.yaml\<close> and the like), and \<open>str.lower\<close>, \<open>str.upper\<close> are
  modelled on the ASCII letters; every other character is left alone. On an ASCII string
  this is what Python does. On other strings it is not: Python lowers and raises
  letters beyond ASCII too, and raising can change the length of a string. So every
  statement below about a key in lower or upper case is made for ASCII keys, which
  \<open>is_ascii\<close> (Python's \<open>str.isascii\<close>: every code below 128) says. Python compares
  strings by code point, character by character, a proper prefix being smaller: this is
  the lexicographic order of \<open>HOL-Library.List_Lexorder\<close> over the character order of
  \<open>HOL-Library.Char_ord\<close>. An upper-case ASCII letter and its lower-case form differ by
  32, which is bit 5 of the character code: lowering sets it, raising clears it.
\<close>

definition is_ascii :: "string \<Rightarrow> bool" where
  "is_ascii s = list_all (\<lambda>c. \<not> digit7 c) s"

definition lower_char :: "char \<Rightarrow> char" where
  "lower_char c =
     (if CHR ''A'' \<le> c \<and> c \<le> CHR ''Z''
      then Char (digit0 c) (digit1 c) (digit2 c) (digit3 c) (digit4 c) True (digit6 c) (digit7 c)
      else c)"

definition upper_char :: "char \<Rightarrow> char" where
  "upper_char c =
     (if CHR ''a'' \<le> c \<and> c \<le> CHR ''z''
      then Char (digit0 c) (digit1 c) (digit2 c) (digit3 c) (digit4 c) False (digit6 c) (digit7 c)
      else c)"

definition str_lower :: "string \<Rightarrow> string" where
  "str_lower s = map lower_char s"

definition str_upper :: "string \<Rightarrow> string" where
  "str_upper s = map upper_char s"

text \<open>\<open>s.replace(old, new)\<close> for one-character \<open>old\<close> and \<open>new\<close>.\<close>

definition str_replace :: "string \<Rightarrow> char \<Rightarrow> char \<Rightarrow> string" where
  "str_replace s old new = map (\<lambda>c. if c = old then new else c) s"

text \<open>\<open>sep.join(xs)\<close>.\<close>

fun str_join :: "string \<Rightarrow> string list \<Rightarrow> string" where
  "str_join sep [] = []"
| "str_join sep [x] = x"
| "str_join sep (x # y # ys) = x @ sep @ str_join sep (y # ys)"

text \<open>\<open>sorted(xs)\<close> on a list of strings.\<close>

definition sorted_py :: "string list \<Rightarrow> string list" where
  "sorted_py xs = sort xs"

text \<open>\<open>s.rfind(c)\<close>: the index of the last occurrence of \<open>c\<close>, or \<open>-1\<close>.\<close>

fun rfind :: "string \<Rightarrow> char \<Rightarrow> int" where
  "rfind [] c = - 1"
| "rfind (x # xs) c =
     (let r = rfind xs c in if 0 \<le> r then r + 1 else if x = c then 0 else - 1)"

text \<open>\<open>os.path.basename\<close> (posixpath): everything after the last slash.\<close>

definition basename :: "string \<Rightarrow> string" where
  "basename p = drop (nat (rfind p CHR ''/'' + 1)) p"

text \<open>
  \<open>os.path.splitext\<close> (posixpath): split at the last dot, when that dot comes after the
  last slash and some character between the slash and the dot is not a dot itself
  (the loop over \<open>filenameIndex\<close>); otherwise the extension is empty.
\<close>

definition splitext :: "string \<Rightarrow> string \<times> string" where
  "splitext p =
     (let sepIndex = rfind p CHR ''/'';
          dotIndex = rfind p CHR ''.''
      in if dotIndex > sepIndex \<and>
            list_ex (\<lambda>c. c \<noteq> CHR ''.'')
              (take (nat dotIndex - nat (sepIndex + 1)) (drop (nat (sepIndex + 1)) p))
         then (take (nat dotIndex) p, drop (nat dotIndex) p)
         else (p, []))"

text \<open>\<open>os.path.join(a, *p)\<close> (posixpath).\<close>

definition join_step :: "string \<Rightarrow> string \<Rightarrow> string" where
  "join_step path b =
     (if take 1 b = ''/'' then b
      else if path = [] \<or> (path \<noteq> [] \<and> last path = CHR ''/'') then path @ b
      else path @ ''/'' @ b)"

definition path_join :: "string \<Rightarrow> string list \<Rightarrow> string" where
  "path_join a p = foldl join_step a p"

text \<open>
  A Python \<open>dict\<close> keeps its keys in insertion order: an association list with distinct
  keys, a new key going to the end and an assignment to an old key keeping its place.
\<close>

type_synonym 'v dict = "(string \<times> 'v) list"

definition dict_contains :: "'v dict \<Rightarrow> string \<Rightarrow> bool" where
  "dict_contains d k = (k \<in> set (map fst d))"

definition dict_get :: "'v dict \<Rightarrow> string \<Rightarrow> 'v option" where
  "dict_get d k = map_of d k"

fun dict_set :: "'v dict \<Rightarrow> string \<Rightarrow> 'v \<Rightarrow> 'v dict" where
  "dict_set [] k v = [(k, v)]"
| "dict_set ((k', v') # d) k v =
     (if k' = k then (k, v) # d else (k', v') # dict_set d k v)"

definition dict_keys :: "'v dict \<Rightarrow> string list" where
  "dict_keys d = map fst d"

section \<open>The templates and the two block renderers\<close>

definition VERSION :: string where
  "VERSION = ''0.1.1''"

definition CARGO_TOML_TPL :: "string \<Rightarrow> string \<Rightarrow> string \<Rightarrow> string \<Rightarrow> string" where
  \<open>CARGO_TOML_TPL family crate version features =
     ''[package]\<newline>'' @
     ''name = "'' @ crate @ ''"\<newline>'' @
     ''version = "'' @ version @ ''"\<newline>'' @
     ''authors = ["Adam Greig <adam@adamgreig.com>"]\<newline>'' @
     ''description = "Device support crates for '' @ family @ '' devices"\<newline>'' @
     ''repository = "https://github.com/adamgreig/stm32-rs"\<newline>'' @
     ''readme = "README.md"\<newline>'' @
     ''keywords = ["stm32", "svd2rust", "no_std", "embedded"]\<newline>'' @
     ''categories = ["embedded", "no-std"]\<newline>'' @
     ''license = "MIT/Apache-2.0"\<newline>'' @
     ''\<newline>'' @
     ''[dependencies]\<newline>'' @
     ''bare-metal = "0.1.1"\<newline>'' @
     ''vcell = "0.1.0"\<newline>'' @
     ''cortex-m = "0.4.3"\<newline>'' @
     ''cortex-m-rt = "0.4.0"\<newline>'' @
     ''\<newline>'' @
     ''[features]\<newline>'' @
     ''default = []\<newline>'' @
     ''rt = []\<newline>'' @
     features @ ''\<newline>''\<close>

definition SRC_LIB_RS_TPL :: "string \<Rightarrow> string \<Rightarrow> string" where
  \<open>SRC_LIB_RS_TPL family mods =
     ''//! Peripheral access API for '' @ family @ '' microcontrollers\<newline>'' @
     ''//! (generated using [svd2rust])\<newline>'' @
     ''//! [svd2rust]: https://github.com/japaric/svd2rust\<newline>'' @
     ''//!\<newline>'' @
     ''//! You can find an overview of the API here:\<newline>'' @
     ''//! https://docs.rs/svd2rust/0.8.1/svd2rust/#peripheral-api\<newline>'' @
     ''//!\<newline>'' @
     ''//! For more details see the README here:\<newline>'' @
     ''//! https://github.com/adamgreig/stm32-rs\<newline>'' @
     ''\<newline>'' @
     ''#![allow(non_camel_case_types)]\<newline>'' @
     ''#![allow(private_no_mangle_statics)]\<newline>'' @
     ''#![feature(const_fn)]\<newline>'' @
     ''#![feature(try_from)]\<newline>'' @
     ''#![no_std]\<newline>'' @
     ''\<newline>'' @
     ''#![cfg_attr(feature = "rt", feature(global_asm))]\<newline>'' @
     ''#![cfg_attr(feature = "rt", feature(use_extern_macros))]\<newline>'' @
     ''#![cfg_attr(feature = "rt", feature(used))]\<newline>'' @
     ''\<newline>'' @
     ''extern crate vcell;\<newline>'' @
     ''extern crate bare_metal;\<newline>'' @
     ''extern crate cortex_m;\<newline>'' @
     ''\<newline>'' @
     ''#[cfg(feature = "rt")]\<newline>'' @
     ''extern crate cortex_m_rt;\<newline>'' @
     ''#[cfg(feature = "rt")]\<newline>'' @
     ''pub use cortex_m_rt::{default_handler, exception};\<newline>'' @
     ''\<newline>'' @
     mods @ ''\<newline>''\<close>

definition README_TPL ::
  "string \<Rightarrow> string \<Rightarrow> string \<Rightarrow> string \<Rightarrow> string \<Rightarrow> string" where
  \<open>README_TPL family crate device version devices =
     ''# '' @ crate @ ''\<newline>'' @
     ''This crate provides an autogenerated API for access to '' @ family @
       '' peripherals.\<newline>'' @
     ''The API is generated using [svd2rust] with patched svd files containing\<newline>'' @
     ''extensive type-safe support. For more information please see the [main repo].\<newline>'' @
     ''\<newline>'' @
     ''[svd2rust]: https://github.com/japaric/svd2rust\<newline>'' @
     ''[main repo]: https://github.com/adamgreig/stm32-rs\<newline>'' @
     ''\<newline>'' @
     ''## Usage\<newline>'' @
     ''Each device supported by this crate is behind a feature gate so that you only\<newline>'' @
     ''compile the device(s) you want. To use, in your Cargo.toml:\<newline>'' @
     ''\<newline>'' @
     ''```toml\<newline>'' @
     ''[dependencies.'' @ crate @ '']\<newline>'' @
     ''version = "'' @ version @ ''"\<newline>'' @
     ''features = ["'' @ device @ ''", "rt"]\<newline>'' @
     ''```\<newline>'' @
     ''\<newline>'' @
     ''The `rt` feature is optional and brings in support for `cortex-m-rt`.\<newline>'' @
     ''\<newline>'' @
     ''For details on the autogenerated API, please see:\<newline>'' @
     ''https://docs.rs/svd2rust/0.8.1/svd2rust/#peripheral-api\<newline>'' @
     ''\<newline>'' @
     ''## Supported Devices\<newline>'' @
     ''\<newline>'' @
     devices @ ''\<newline>''\<close>

definition make_features :: "string list \<Rightarrow> string" where
  "make_features devices =
     str_join ''\<newline>'' (map (\<lambda>d. d @ '' = []'') (sorted_py devices))"

definition make_mods :: "string list \<Rightarrow> string" where
  \<open>make_mods devices =
     str_join ''\<newline>''
       (map (\<lambda>d. ''#[cfg(feature = "'' @ d @ ''")]\<newline>pub mod '' @ d @ '';\<newline>'')
         (sorted_py devices))\<close>

section \<open>The environment of a run and what a run does to it\<close>

text \<open>
  A run reads its arguments, lists one directory, prints, waits for the operator and
  writes files. The environment holds what the run cannot decide: the argument vector,
  what listing a directory yields (\<open>None\<close> when the directory is missing or cannot be
  read), what the operator does at the prompt, and whether creating a directory or
  opening a file for writing succeeds. The run is a function from the environment to the
  list of its effects, in the order they happen, and the way it ends. \<open>Stdout\<close> is
  one line that \<open>print\<close> writes, \<open>Scandir\<close> the listing of a directory by the
  glob, \<open>Prompt\<close> the call of \<open>input\<close>, \<open>Makedirs\<close> a successful
  \<open>os.makedirs\<close> and \<open>WriteFile\<close> a file opened for writing and written.
\<close>

datatype py_error = IndexError | KeyError | OSError | KeyboardInterrupt | EOFError

datatype reply = Line string | CtrlC | EndOfInput

datatype event =
    Stdout string
  | Scandir string
  | Prompt string
  | Makedirs string
  | WriteFile string string

datatype outcome = Returned | Raised py_error | SysExit nat

record env =
  argv :: "string list"
  listdir :: "string \<Rightarrow> string list option"
  operator :: reply
  makedirs_ok :: "string \<Rightarrow> bool"
  open_ok :: "string \<Rightarrow> bool"

text \<open>
  \<open>glob.glob(os.path.join(dir, "*.yaml"))\<close> for a directory name without wildcard
  characters. The library lists the directory and swallows the \<open>OSError\<close> of a
  directory that is missing or unreadable (\<open>glob._iterdir\<close> returns nothing then); it
  keeps the names that end in \<open>.yaml\<close>, compared case-sensitively, skips the names that
  start with a dot, which the pattern \<open>*\<close> does not match, and returns each name joined
  to the directory, in the order of the listing.

  A directory name with one of the characters \<open>*\<close>, \<open>?\<close> and \<open>[\<close> is a pattern
  to the library (\<open>glob.has_magic\<close>), which then lists the directories that match it
  and not the directory of that name. \<open>glob_yaml\<close> does not model this, so every
  statement below about what the glob finds in a directory is made for a directory name
  without these characters.
\<close>

definition has_magic :: "string \<Rightarrow> bool" where
  "has_magic s = list_ex (\<lambda>c. c = CHR ''*'' \<or> c = CHR ''?'' \<or> c = CHR ''['') s"

definition fnmatch_yaml :: "string \<Rightarrow> bool" where
  "fnmatch_yaml name = (5 \<le> length name \<and> drop (length name - 5) name = ''.yaml'')"

definition is_hidden :: "string \<Rightarrow> bool" where
  "is_hidden name = (take 1 name = ''.'')"

definition yaml_names :: "string list \<Rightarrow> string list" where
  "yaml_names names = filter (\<lambda>name. \<not> is_hidden name \<and> fnmatch_yaml name) names"

definition glob_yaml :: "env \<Rightarrow> string \<Rightarrow> string list" where
  "glob_yaml e dir =
     (case listdir e dir of
        None \<Rightarrow> []
      | Some names \<Rightarrow> map (\<lambda>name. path_join dir [name]) (yaml_names names))"

section \<open>Discovery and grouping\<close>

text \<open>The body of the first loop of \<open>main\<close>, for one path of the glob.\<close>

definition group_file :: "string list dict \<Rightarrow> string \<Rightarrow> py_error + string list dict" where
  "group_file devices path =
     (let yamlfile = basename path;
          family = take 7 yamlfile;
          device = str_lower (fst (splitext yamlfile));
          devices1 = (if \<not> dict_contains devices family
                      then dict_set devices family [] else devices)
      in case dict_get devices1 family of
           None \<Rightarrow> Inl KeyError
         | Some ds \<Rightarrow> Inr (dict_set devices1 family (ds @ [device])))"

fun discover :: "string list dict \<Rightarrow> string list \<Rightarrow> py_error + string list dict" where
  "discover devices [] = Inr devices"
| "discover devices (path # paths) =
     (case group_file devices path of
        Inl err \<Rightarrow> Inl err
      | Inr devices' \<Rightarrow> discover devices' paths)"

section \<open>Rendering and writing one family\<close>

text \<open>\<open>xs[0]\<close>.\<close>

fun first :: "string list \<Rightarrow> py_error + string" where
  "first [] = Inl IndexError"
| "first (device # rest) = Inr device"

text \<open>The bullet list of the readme, one line per device of the list it is given.\<close>

definition readme_devices :: "string list \<Rightarrow> string" where
  "readme_devices devs =
     str_join ''\<newline>''
       (map (\<lambda>d. ''* '' @ str_replace (str_upper d) CHR ''X'' CHR ''x'') devs)"

text \<open>
  The three texts of a family, from its key, its sorted device list and the version:
  the assignments to \<open>crate\<close>, \<open>features\<close>, \<open>mods\<close>, \<open>ufamily\<close>, \<open>cargo_toml\<close>,
  \<open>readme\<close> and \<open>lib_rs\<close> of the second loop. Nothing here reads the environment.
\<close>

definition render ::
  "string \<Rightarrow> string list \<Rightarrow> string \<Rightarrow> py_error + (string \<times> string \<times> string)" where
  "render family devs version =
     (let crate = str_lower family;
          features = make_features devs;
          mods = make_mods devs;
          ufamily = str_upper family;
          cargo_toml = CARGO_TOML_TPL ufamily crate version features
      in case first devs of
           Inl err \<Rightarrow> Inl err
         | Inr device \<Rightarrow>
             (let readme = README_TPL ufamily crate device version (readme_devices devs);
                  lib_rs = SRC_LIB_RS_TPL ufamily mods
              in Inr (cargo_toml, readme, lib_rs)))"

text \<open>
  One round of the second loop: sort the family's list in the dictionary, render, make
  the directories and write the three files. A step of the file system that fails raises
  \<open>OSError\<close> and leaves what was written before it. A file is opened and written in
  one step: an \<open>f.write\<close> that fails after its \<open>open\<close> has succeeded, leaving an
  empty file, is not modelled.
\<close>

definition write_family ::
  "env \<Rightarrow> string list dict \<Rightarrow> string \<Rightarrow> string list dict \<times> event list \<times> outcome" where
  "write_family e devices family =
     (case dict_get devices family of
        None \<Rightarrow> (devices, [], Raised KeyError)
      | Some ds \<Rightarrow>
          (let devs = sorted_py ds;
               devices' = dict_set devices family devs;
               crate = str_lower family
           in case render family devs VERSION of
                Inl err \<Rightarrow> (devices', [], Raised err)
              | Inr (cargo_toml, readme, lib_rs) \<Rightarrow>
                  (let mk = Makedirs (path_join crate [''src'']);
                       w1 = WriteFile (path_join crate [''Cargo.toml'']) cargo_toml;
                       w2 = WriteFile (path_join crate [''README.md'']) readme;
                       w3 = WriteFile (path_join crate [''src'', ''lib.rs'']) lib_rs
                   in if \<not> makedirs_ok e (path_join crate [''src''])
                      then (devices', [], Raised OSError)
                      else if \<not> open_ok e (path_join crate [''Cargo.toml''])
                      then (devices', [mk], Raised OSError)
                      else if \<not> open_ok e (path_join crate [''README.md''])
                      then (devices', [mk, w1], Raised OSError)
                      else if \<not> open_ok e (path_join crate [''src'', ''lib.rs''])
                      then (devices', [mk, w1, w2], Raised OSError)
                      else (devices', [mk, w1, w2, w3], Returned))))"

fun write_families :: "env \<Rightarrow> string list dict \<Rightarrow> string list \<Rightarrow> event list \<times> outcome" where
  "write_families e devices [] = ([], Returned)"
| "write_families e devices (family # rest) =
     (let (devices', evs, out) = write_family e devices family
      in if out = Returned
         then (let (evs', out') = write_families e devices' rest in (evs @ evs', out'))
         else (evs, out))"

section \<open>The program\<close>

definition confirm_events :: "string \<Rightarrow> string list dict \<Rightarrow> event list" where
  "confirm_events dir devices =
     [Scandir dir,
      Stdout ''Going to create/update the following directories:'',
      Stdout (str_join '', '' (map (\<lambda>x. str_lower x @ ''/'') (dict_keys devices))),
      Prompt ''Enter to continue, ctrl-C to cancel'']"

definition main :: "env \<Rightarrow> event list \<times> outcome" where
  "main e =
     (if length (argv e) \<le> 1 then ([], Raised IndexError)
      else
        (let dir = argv e ! 1 in
         case discover [] (glob_yaml e dir) of
           Inl err \<Rightarrow> ([Scandir dir], Raised err)
         | Inr devices \<Rightarrow>
             (case operator e of
                CtrlC \<Rightarrow> (confirm_events dir devices, Raised KeyboardInterrupt)
              | EndOfInput \<Rightarrow> (confirm_events dir devices, Raised EOFError)
              | Line s \<Rightarrow>
                  (let (evs, out) = write_families e devices (dict_keys devices)
                   in (confirm_events dir devices @ evs, out)))))"

text \<open>The \<open>__main__\<close> block.\<close>

definition script :: "env \<Rightarrow> event list \<times> outcome" where
  "script e =
     (if length (argv e) \<noteq> 2
      then (case argv e of
              [] \<Rightarrow> ([], Raised IndexError)
            | prog # args \<Rightarrow> ([Stdout (''Usage: '' @ prog @ '' <yaml directory>'')], SysExit 1))
      else main e)"

section \<open>Observations on texts and traces\<close>

text \<open>\<open>s.split("\n")\<close>: the lines of a text.\<close>

fun split_lines :: "string \<Rightarrow> string list" where
  "split_lines [] = [[]]"
| "split_lines (c # cs) =
     (if c = CHR ''\<newline>'' then [] # split_lines cs
      else (case split_lines cs of [] \<Rightarrow> [[c]] | l # ls \<Rightarrow> (c # l) # ls))"

text \<open>
  The feature names a features block declares: of every line that ends in \<open> = []\<close>,
  what stands before it.
\<close>

definition feature_names :: "string \<Rightarrow> string list" where
  "feature_names block =
     map (\<lambda>l. take (length l - 5) l)
       (filter (\<lambda>l. 5 \<le> length l \<and> drop (length l - 5) l = '' = []'') (split_lines block))"

text \<open>
  The bullet of one device in the readme, as the specification words it: the device key
  in upper case, every \<open>X\<close> then replaced by \<open>x\<close>, behind an asterisk and a space.
\<close>

definition bullet_spec :: "string \<Rightarrow> string" where
  "bullet_spec d = ''* '' @ map (\<lambda>c. if c = CHR ''X'' then CHR ''x'' else c) (map upper_char d)"

text \<open>
  The family key and the device key that the first loop computes from a path of the glob.
\<close>

abbreviation family_of :: "string \<Rightarrow> string" where
  "family_of path \<equiv> take 7 (basename path)"

abbreviation device_of :: "string \<Rightarrow> string" where
  "device_of path \<equiv> str_lower (fst (splitext (basename path)))"

text \<open>The events that change the file system, and the paths they touch.\<close>

fun is_write :: "event \<Rightarrow> bool" where
  "is_write (Makedirs p) = True"
| "is_write (WriteFile p c) = True"
| "is_write (Stdout s) = False"
| "is_write (Scandir p) = False"
| "is_write (Prompt s) = False"

fun touched :: "event list \<Rightarrow> string set" where
  "touched [] = {}"
| "touched (Makedirs p # evs) = insert p (touched evs)"
| "touched (WriteFile p c # evs) = insert p (touched evs)"
| "touched (ev # evs) = touched evs"

text \<open>
  A sample environment: the script is started with the given arguments, the only
  directory there is is \<open>devices\<close>, which holds the given names, and every write
  succeeds.
\<close>

definition sample_env :: "string list \<Rightarrow> string list \<Rightarrow> reply \<Rightarrow> env" where
  "sample_env args names r =
     \<lparr>argv = ''scripts/makecrates.py'' # args,
      listdir = (\<lambda>d. if d = ''devices'' then Some names else None),
      operator = r,
      makedirs_ok = (\<lambda>p. True),
      open_ok = (\<lambda>p. True)\<rparr>"

section \<open>Facts about sorting, lines, paths and dictionaries\<close>

subsection \<open>Sorting\<close>

lemma sorted_py_perm: "mset ys = mset xs \<Longrightarrow> sorted_py ys = sorted_py xs"
  unfolding sorted_py_def by (rule properties_for_sort) simp_all

lemma sorted_py_idem: "sorted_py (sorted_py xs) = sorted_py xs"
  unfolding sorted_py_def by (rule properties_for_sort) simp_all

lemma sorted_py_Nil: "(sorted_py ds = []) = (ds = [])"
proof -
  have "length (sorted_py ds) = length ds"
    by (simp add: sorted_py_def)
  then show ?thesis
    by (metis length_0_conv)
qed

lemma count_list_sorted_py: "count_list (sorted_py ds) d = count_list ds d"
proof -
  have "count (mset (sorted_py ds)) d = count (mset ds) d"
    by (simp add: sorted_py_def)
  then show ?thesis
    by (simp only: count_mset)
qed

lemma first_sorted_py_Min:
  assumes "ds \<noteq> []"
  shows "first (sorted_py ds) = Inr (Min (set ds))"
proof -
  obtain x xs where s: "sorted_py ds = x # xs"
    using assms by (cases "sorted_py ds") (auto simp: sorted_py_Nil)
  have "sorted (x # xs)" "set (x # xs) = set ds"
    unfolding s [symmetric] by (simp_all add: sorted_py_def)
  then have "Min (set ds) = x"
    by (intro Min_eqI) auto
  then show ?thesis
    by (simp add: s)
qed

subsection \<open>Lines of a text\<close>

lemma split_lines_no_newline:
  "CHR ''\<newline>'' \<notin> set l \<Longrightarrow> split_lines l = [l]"
  by (induction l) auto

lemma split_lines_ne: "split_lines s \<noteq> []"
  by (induction s) (auto split: list.splits)

lemma split_lines_line:
  "CHR ''\<newline>'' \<notin> set l \<Longrightarrow> split_lines (l @ CHR ''\<newline>'' # rest) = l # split_lines rest"
  by (induction l) auto

lemma split_lines_cut:
  "split_lines (a @ CHR ''\<newline>'' # b) = split_lines a @ split_lines b"
proof (induction a)
  case Nil
  then show ?case by simp
next
  case (Cons c a)
  then show ?case by (cases "split_lines a") (auto simp: split_lines_ne)
qed

lemma split_lines_join:
  "ls \<noteq> [] \<Longrightarrow> \<forall>l\<in>set ls. CHR ''\<newline>'' \<notin> set l \<Longrightarrow>
   split_lines (str_join ''\<newline>'' ls) = ls"
proof (induction "''\<newline>''" ls rule: str_join.induct)
  case 1
  then show ?case by simp
next
  case (2 x)
  then show ?case by (simp add: split_lines_no_newline)
next
  case (3 x y ys)
  then show ?case by (simp add: split_lines_line)
qed

subsection \<open>Paths\<close>

lemma rfind_absent: "c \<notin> set xs \<Longrightarrow> rfind xs c = - 1"
  by (induction xs) (auto simp: Let_def)

lemma rfind_last: "c \<notin> set ys \<Longrightarrow> rfind (xs @ c # ys) c = int (length xs)"
  by (induction xs) (auto simp: Let_def rfind_absent)

lemma basename_plain: "CHR ''/'' \<notin> set p \<Longrightarrow> basename p = p"
  by (simp add: basename_def rfind_absent)

lemma basename_after_slash:
  assumes "CHR ''/'' \<notin> set ys"
  shows "basename (xs @ CHR ''/'' # ys) = ys"
proof -
  have "nat (rfind (xs @ CHR ''/'' # ys) CHR ''/'' + 1) = Suc (length xs)"
    using assms by (simp add: rfind_last)
  then show ?thesis
    by (simp add: basename_def)
qed

lemma basename_no_slash: "CHR ''/'' \<notin> set (basename p)"
proof (cases "CHR ''/'' \<in> set p")
  case True
  then obtain xs ys where "p = xs @ CHR ''/'' # ys" "CHR ''/'' \<notin> set ys"
    by (meson split_list_last)
  then show ?thesis
    by (simp add: basename_after_slash)
next
  case False
  then show ?thesis
    by (simp add: basename_plain)
qed

lemma path_join_one:
  assumes "CHR ''/'' \<notin> set name"
  shows "path_join dir [name] = name \<or> (\<exists>xs. path_join dir [name] = xs @ CHR ''/'' # name)"
proof -
  have t: "take 1 name \<noteq> ''/''"
    using assms by (cases name) auto
  show ?thesis
  proof (cases "dir = []")
    case True
    then show ?thesis using t by (simp add: path_join_def join_step_def)
  next
    case False
    show ?thesis
    proof (cases "last dir = CHR ''/''")
      case True
      then have "dir = butlast dir @ [CHR ''/'']"
        using False by (metis append_butlast_last_id)
      then have "dir @ name = butlast dir @ CHR ''/'' # name"
        by (metis append_Cons append_Nil append_assoc)
      then show ?thesis
        using t True False by (auto simp: path_join_def join_step_def)
    next
      case no: False
      then show ?thesis
        using t False by (auto simp: path_join_def join_step_def)
    qed
  qed
qed

lemma basename_path_join:
  assumes "CHR ''/'' \<notin> set name"
  shows "basename (path_join dir [name]) = name"
  using path_join_one [OF assms, of dir] assms
  by (auto simp: basename_plain basename_after_slash)

lemma splitext_yaml:
  assumes "CHR ''/'' \<notin> set name" "\<not> is_hidden name" "fnmatch_yaml name"
  shows "splitext name = (take (length name - 5) name, ''.yaml'')"
proof -
  define stem where "stem = take (length name - 5) name"
  have name: "name = stem @ CHR ''.'' # ''yaml''"
    using assms(3) by (simp add: fnmatch_yaml_def stem_def) (metis append_take_drop_id)
  have stem: "stem \<noteq> []" "hd stem \<noteq> CHR ''.''"
    using assms(2) name by (cases stem; simp add: is_hidden_def)+
  have dot: "rfind name CHR ''.'' = int (length stem)"
    by (subst name) (simp add: rfind_last)
  have sep: "rfind name CHR ''/'' = - 1"
    using assms(1) by (rule rfind_absent)
  have ex: "list_ex (\<lambda>c. c \<noteq> CHR ''.'') stem"
    using stem by (cases stem) auto
  have tk: "take (length stem) name = stem" "drop (length stem) name = ''.yaml''"
    by (subst name, simp)+
  show ?thesis
    unfolding splitext_def dot sep Let_def stem_def [symmetric]
    using ex stem(1) tk by simp
qed

lemma lower_char_slash: "(lower_char c = CHR ''/'') = (c = CHR ''/'')"
  by (cases c) (auto simp: lower_char_def)

lemma str_lower_no_slash:
  assumes "CHR ''/'' \<notin> set f"
  shows "CHR ''/'' \<notin> set (str_lower f)"
proof
  assume "CHR ''/'' \<in> set (str_lower f)"
  then obtain c where "c \<in> set f" "lower_char c = CHR ''/''"
    by (auto simp: str_lower_def)
  then show False
    using assms by (simp add: lower_char_slash)
qed

lemma crate_paths:
  assumes "CHR ''/'' \<notin> set c"
  shows "path_join c [''src''] = (if c = [] then ''src'' else c @ ''/src'')"
    and "path_join c [''Cargo.toml''] = (if c = [] then ''Cargo.toml'' else c @ ''/Cargo.toml'')"
    and "path_join c [''README.md''] = (if c = [] then ''README.md'' else c @ ''/README.md'')"
    and "path_join c [''src'', ''lib.rs''] = (if c = [] then ''src/lib.rs'' else c @ ''/src/lib.rs'')"
proof -
  have "c \<noteq> [] \<Longrightarrow> last c \<noteq> CHR ''/''"
    using assms last_in_set by metis
  then show "path_join c [''src''] = (if c = [] then ''src'' else c @ ''/src'')"
    and "path_join c [''Cargo.toml''] = (if c = [] then ''Cargo.toml'' else c @ ''/Cargo.toml'')"
    and "path_join c [''README.md''] = (if c = [] then ''README.md'' else c @ ''/README.md'')"
    and "path_join c [''src'', ''lib.rs''] = (if c = [] then ''src/lib.rs'' else c @ ''/src/lib.rs'')"
    by (simp_all add: path_join_def join_step_def)
qed

lemma under_crate:
  assumes "CHR ''/'' \<notin> set c"
  shows "takeWhile (\<lambda>a. a \<noteq> CHR ''/'') (c @ CHR ''/'' # r) = c"
    and "dropWhile (\<lambda>a. a \<noteq> CHR ''/'') (c @ CHR ''/'' # r) = CHR ''/'' # r"
  using assms by (induction c) auto

lemma crate_files_apart:
  assumes c1: "CHR ''/'' \<notin> set c1" and c2: "CHR ''/'' \<notin> set c2" and ne: "c1 \<noteq> c2"
    and x: "x \<in> {''src'', ''Cargo.toml'', ''README.md'', ''src/lib.rs''}"
    and y: "y \<in> {''src'', ''Cargo.toml'', ''README.md'', ''src/lib.rs''}"
  shows "(if c1 = [] then x else c1 @ CHR ''/'' # x) \<noteq> (if c2 = [] then y else c2 @ CHR ''/'' # y)"
proof -
  have bare: "x' \<noteq> c @ CHR ''/'' # y'"
    if "CHR ''/'' \<notin> set c" "c \<noteq> []"
      "x' \<in> {''src'', ''Cargo.toml'', ''README.md'', ''src/lib.rs''}"
      "y' \<in> {''src'', ''Cargo.toml'', ''README.md'', ''src/lib.rs''}" for c x' y'
  proof
    assume eq: "x' = c @ CHR ''/'' # y'"
    then have "dropWhile (\<lambda>a. a \<noteq> CHR ''/'') x' = CHR ''/'' # y'"
      using under_crate(2) [OF that(1)] by simp
    then show False
      using that(3,4) by auto
  qed
  show ?thesis
  proof (cases "c1 = []")
    case True
    then have "c2 \<noteq> []" using ne by simp
    then show ?thesis
      using True bare [OF c2 _ x y] by simp
  next
    case n1: False
    show ?thesis
    proof (cases "c2 = []")
      case True
      then show ?thesis
        using n1 bare [OF c1 n1 y x] by (simp; metis)
    next
      case n2: False
      have "c1 @ CHR ''/'' # x \<noteq> c2 @ CHR ''/'' # y"
      proof
        assume "c1 @ CHR ''/'' # x = c2 @ CHR ''/'' # y"
        then have "takeWhile (\<lambda>a. a \<noteq> CHR ''/'') (c1 @ CHR ''/'' # x) =
                   takeWhile (\<lambda>a. a \<noteq> CHR ''/'') (c2 @ CHR ''/'' # y)"
          by simp
        then show False
          unfolding under_crate(1) [OF c1] under_crate(1) [OF c2] using ne by simp
      qed
      then show ?thesis
        using n1 n2 by simp
    qed
  qed
qed

lemma crate_touched_apart:
  assumes c1: "CHR ''/'' \<notin> set c1" and c2: "CHR ''/'' \<notin> set c2" and ne: "c1 \<noteq> c2"
  shows "{path_join c1 [''src''], path_join c1 [''Cargo.toml''],
          path_join c1 [''README.md''], path_join c1 [''src'', ''lib.rs'']} \<inter>
         {path_join c2 [''src''], path_join c2 [''Cargo.toml''],
          path_join c2 [''README.md''], path_join c2 [''src'', ''lib.rs'']} = {}"
proof -
  let ?X = "{''src'', ''Cargo.toml'', ''README.md'', ''src/lib.rs''}"
  let ?J = "\<lambda>c x. if c = [] then x else c @ CHR ''/'' # x"
  have s1: "{path_join c1 [''src''], path_join c1 [''Cargo.toml''],
          path_join c1 [''README.md''], path_join c1 [''src'', ''lib.rs'']} = ?J c1 ` ?X"
    unfolding crate_paths [OF c1] by auto
  have s2: "{path_join c2 [''src''], path_join c2 [''Cargo.toml''],
          path_join c2 [''README.md''], path_join c2 [''src'', ''lib.rs'']} = ?J c2 ` ?X"
    unfolding crate_paths [OF c2] by auto
  have "?J c1 x \<noteq> ?J c2 y" if "x \<in> ?X" "y \<in> ?X" for x y
    using c1 c2 ne that by (rule crate_files_apart)
  then have "?J c1 ` ?X \<inter> ?J c2 ` ?X = {}"
    by blast
  then show ?thesis
    unfolding s1 s2 .
qed

subsection \<open>Dictionaries\<close>

lemma dict_get_set: "dict_get (dict_set d k v) k' = (if k' = k then Some v else dict_get d k')"
  by (induction d) (auto simp: dict_get_def)

lemma dict_set_twice: "dict_set (dict_set d k v) k w = dict_set d k w"
  by (induction d) auto

lemma dict_contains_get: "dict_contains d k = (dict_get d k \<noteq> None)"
  by (simp add: dict_contains_def dict_get_def map_of_eq_None_iff)

lemma dict_keys_get: "(k \<in> set (dict_keys d)) = (dict_get d k \<noteq> None)"
  by (simp add: dict_keys_def dict_get_def map_of_eq_None_iff)

lemma dict_keys_set:
  "dict_keys (dict_set d k v) = (if k \<in> set (dict_keys d) then dict_keys d else dict_keys d @ [k])"
  by (induction d) (force simp: dict_keys_def)+

section \<open>Invocation\<close>

text \<open>
  C8. Started with no argument, or with two or more, the script prints the usage line
  and exits with status 1: the usage line is the only effect of the run, no directory is
  listed and nothing is written. Started with exactly one argument it runs \<open>main\<close>.
\<close>

theorem usage_unless_one_argument:
  assumes "argv e = prog # args"
  shows "script e =
    (if length args = 1 then main e
     else ([Stdout (''Usage: '' @ prog @ '' <yaml directory>'')], SysExit 1))"
  using assms by (simp add: script_def)

theorem usage_unless_one_argument_witness:
  "script (sample_env [] [''stm32f401.yaml''] (Line [])) =
     ([Stdout ''Usage: scripts/makecrates.py <yaml directory>''], SysExit 1) \<and>
   script (sample_env [''devices'', ''extra''] [''stm32f401.yaml''] (Line [])) =
     ([Stdout ''Usage: scripts/makecrates.py <yaml directory>''], SysExit 1) \<and>
   script (sample_env [''devices''] [''stm32f401.yaml''] (Line [])) =
     main (sample_env [''devices''] [''stm32f401.yaml''] (Line []))"
  using usage_unless_one_argument
          [of "sample_env [] [''stm32f401.yaml''] (Line [])" "''scripts/makecrates.py''" "[]"]
        usage_unless_one_argument
          [of "sample_env [''devices'', ''extra''] [''stm32f401.yaml''] (Line [])"
              "''scripts/makecrates.py''" "[''devices'', ''extra'']"]
        usage_unless_one_argument
          [of "sample_env [''devices''] [''stm32f401.yaml''] (Line [])"
              "''scripts/makecrates.py''" "[''devices'']"]
  by (simp add: sample_env_def)

section \<open>Discovery and grouping, proved\<close>

lemma group_file_eq:
  "group_file devices path =
     Inr (dict_set devices (family_of path)
            ((case dict_get devices (family_of path) of None \<Rightarrow> [] | Some ds \<Rightarrow> ds) @
             [device_of path]))"
  by (cases "dict_get devices (family_of path)")
     (simp_all add: group_file_def Let_def dict_contains_get dict_get_set dict_set_twice)

lemma discover_snoc:
  "discover devices (paths @ [path]) =
     (case discover devices paths of Inl err \<Rightarrow> Inl err | Inr devices' \<Rightarrow> group_file devices' path)"
  by (induction paths arbitrary: devices) (auto split: sum.splits)

lemma filter_unseen: "g x \<notin> set (map g xs) \<Longrightarrow> filter (\<lambda>p. g p = g x) xs = []"
  by (induction xs) auto

lemma discover_grouping:
  "\<exists>devices. discover [] paths = Inr devices \<and>
     dict_keys devices = rev (remdups (rev (map family_of paths))) \<and>
     (\<forall>f. dict_get devices f =
        (if f \<in> set (map family_of paths)
         then Some (map device_of (filter (\<lambda>p. family_of p = f) paths))
         else None))"
proof (induction paths rule: rev_induct)
  case Nil
  show ?case by (simp add: dict_keys_def dict_get_def)
next
  case (snoc path paths)
  then obtain devices where d: "discover [] paths = Inr devices"
    and keys: "dict_keys devices = rev (remdups (rev (map family_of paths)))"
    and get: "\<And>f. dict_get devices f =
        (if f \<in> set (map family_of paths)
         then Some (map device_of (filter (\<lambda>p. family_of p = f) paths))
         else None)"
    by blast
  let ?old = "case dict_get devices (family_of path) of None \<Rightarrow> [] | Some ds \<Rightarrow> ds"
  let ?devices = "dict_set devices (family_of path) (?old @ [device_of path])"
  have old: "?old = map device_of (filter (\<lambda>p. family_of p = family_of path) paths)"
  proof (cases "family_of path \<in> set (map family_of paths)")
    case True
    then show ?thesis by (simp add: get)
  next
    case False
    then have "filter (\<lambda>p. family_of p = family_of path) paths = []"
      by (rule filter_unseen)
    with False show ?thesis by (simp add: get)
  qed
  have run: "discover [] (paths @ [path]) = Inr ?devices"
    by (simp add: discover_snoc d group_file_eq)
  have k: "set (dict_keys devices) = set (map family_of paths)"
    by (simp add: keys)
  have keys': "dict_keys ?devices = rev (remdups (rev (map family_of (paths @ [path]))))"
    unfolding dict_keys_set k keys by simp
  have get': "dict_get ?devices f =
        (if f \<in> set (map family_of (paths @ [path]))
         then Some (map device_of (filter (\<lambda>p. family_of p = f) (paths @ [path])))
         else None)" for f
  proof (cases "f = family_of path")
    case True
    then show ?thesis
      unfolding dict_get_set old by simp
  next
    case False
    then show ?thesis
      unfolding dict_get_set by (auto simp: get)
  qed
  show ?case
    using run keys' get' by blast
qed

lemma discover_total: "\<exists>devices. discover [] paths = Inr devices"
  using discover_grouping [of paths] by blast

lemma discover_lists_nonempty:
  assumes "discover [] paths = Inr devices" "dict_get devices f = Some ds"
  shows "ds \<noteq> []"
proof -
  from discover_grouping [of paths] assms(1)
  have g: "dict_get devices f =
        (if f \<in> set (map family_of paths)
         then Some (map device_of (filter (\<lambda>p. family_of p = f) paths))
         else None)"
    by auto
  with assms(2) have "f \<in> set (map family_of paths)"
    and ds: "ds = map device_of (filter (\<lambda>p. family_of p = f) paths)"
    by (auto split: if_splits)
  then obtain p where "p \<in> set paths" "family_of p = f"
    by auto
  then have "filter (\<lambda>p. family_of p = f) paths \<noteq> []"
    by (auto simp: filter_empty_conv)
  then show ?thesis
    by (simp add: ds)
qed

lemma discovered_key_no_slash:
  assumes "discover [] paths = Inr devices" "f \<in> set (dict_keys devices)"
  shows "CHR ''/'' \<notin> set f"
proof -
  from discover_grouping [of paths] assms(1)
  have "dict_keys devices = rev (remdups (rev (map family_of paths)))"
    by auto
  with assms(2) obtain p where "f = family_of p"
    by auto
  then show ?thesis
    using basename_no_slash [of p] by (auto dest: in_set_takeD)
qed

lemma glob_keys:
  assumes "\<forall>n\<in>set names. CHR ''/'' \<notin> set n" "n \<in> set (yaml_names names)"
  shows "family_of (path_join dir [n]) = take 7 n"
    and "device_of (path_join dir [n]) = str_lower (take (length n - 5) n)"
proof -
  have n: "CHR ''/'' \<notin> set n" "\<not> is_hidden n" "fnmatch_yaml n"
    using assms by (auto simp: yaml_names_def)
  show "family_of (path_join dir [n]) = take 7 n"
    by (simp add: basename_path_join n(1))
  show "device_of (path_join dir [n]) = str_lower (take (length n - 5) n)"
    by (simp add: basename_path_join n(1) splitext_yaml [OF n])
qed

text \<open>
  C1. When the directory, whose name has no wildcard character, can be listed and its
  entries are plain ASCII names, discovery ends with a dictionary whose keys are the
  first seven characters of the matching file names (all of the name when it is shorter,
  the case kept), in the order in which each key is first seen; under a key stand, in
  the order of the listing, the names that have this key, each without its \<open>.yaml\<close>
  extension and in lower case. So a group comes into being with the first device seen
  for it.
\<close>

theorem discovery_groups_by_first_seven:
  assumes "listdir e dir = Some names"
      and "\<forall>n\<in>set names. CHR ''/'' \<notin> set n"
      and "\<not> has_magic dir"
      and "\<forall>n\<in>set names. is_ascii n"
  shows "\<exists>devices. discover [] (glob_yaml e dir) = Inr devices \<and>
     dict_keys devices = rev (remdups (rev (map (take 7) (yaml_names names)))) \<and>
     (\<forall>f. dict_get devices f =
        (if f \<in> set (map (take 7) (yaml_names names))
         then Some (map (\<lambda>n. str_lower (take (length n - 5) n))
                     (filter (\<lambda>n. take 7 n = f) (yaml_names names)))
         else None))"
proof -
  let ?J = "\<lambda>name. path_join dir [name]"
  let ?found = "yaml_names names"
  have glob: "glob_yaml e dir = map ?J ?found"
    by (simp add: glob_yaml_def assms(1))
  have fam: "map family_of (map ?J ?found) = map (take 7) ?found"
    using glob_keys(1) [OF assms(2)] by simp
  have dev: "map device_of (filter (\<lambda>p. family_of p = f) (map ?J ?found)) =
             map (\<lambda>n. str_lower (take (length n - 5) n)) (filter (\<lambda>n. take 7 n = f) ?found)" for f
  proof -
    have "filter (\<lambda>p. family_of p = f) (map ?J ?found) =
          map ?J (filter (\<lambda>n. family_of (?J n) = f) ?found)"
      by (simp add: filter_map comp_def)
    also have "filter (\<lambda>n. family_of (?J n) = f) ?found = filter (\<lambda>n. take 7 n = f) ?found"
      by (rule filter_cong [OF refl]) (simp add: glob_keys(1) [OF assms(2)])
    finally show ?thesis
      using glob_keys(2) [OF assms(2)] by simp
  qed
  from discover_grouping [of "map ?J ?found"]
  show ?thesis
    unfolding glob fam dev .
qed

theorem discovery_groups_by_first_seven_witness:
  "\<exists>devices.
     discover []
       (glob_yaml (sample_env [''devices'']
          [''stm32f411.yaml'', ''README.md'', ''STM32L0x1.yaml'', ''.hid.yaml'', ''stm32f401.yaml'',
           ''a.yaml''] (Line [])) ''devices'') = Inr devices \<and>
     dict_keys devices = [''stm32f4'', ''STM32L0'', ''a.yaml''] \<and>
     dict_get devices ''stm32f4'' = Some [''stm32f411'', ''stm32f401''] \<and>
     dict_get devices ''STM32L0'' = Some [''stm32l0x1''] \<and>
     dict_get devices ''a.yaml'' = Some [''a''] \<and>
     dict_get devices ''README.'' = None"
proof -
  let ?names = "[''stm32f411.yaml'', ''README.md'', ''STM32L0x1.yaml'', ''.hid.yaml'',
                 ''stm32f401.yaml'', ''a.yaml'']"
  let ?e = "sample_env [''devices''] ?names (Line [])"
  have l: "listdir ?e ''devices'' = Some ?names"
    by (simp add: sample_env_def)
  have s: "\<forall>n\<in>set ?names. CHR ''/'' \<notin> set n"
    by simp
  have m: "\<not> has_magic ''devices''"
    by (simp add: has_magic_def)
  have a: "\<forall>n\<in>set ?names. is_ascii n"
    by (simp add: is_ascii_def)
  have y: "yaml_names ?names = [''stm32f411.yaml'', ''STM32L0x1.yaml'', ''stm32f401.yaml'', ''a.yaml'']"
    by (simp add: yaml_names_def is_hidden_def fnmatch_yaml_def)
  from discovery_groups_by_first_seven [OF l s m a]
  obtain devices where d: "discover [] (glob_yaml ?e ''devices'') = Inr devices"
    and k: "dict_keys devices = rev (remdups (rev (map (take 7) (yaml_names ?names))))"
    and g: "\<And>f. dict_get devices f =
        (if f \<in> set (map (take 7) (yaml_names ?names))
         then Some (map (\<lambda>n. str_lower (take (length n - 5) n))
                     (filter (\<lambda>n. take 7 n = f) (yaml_names ?names)))
         else None)"
    by blast
  have "dict_keys devices = [''stm32f4'', ''STM32L0'', ''a.yaml'']"
    unfolding k y by simp
  moreover have "dict_get devices ''stm32f4'' = Some [''stm32f411'', ''stm32f401'']"
    unfolding g y by (simp add: str_lower_def lower_char_def)
  moreover have "dict_get devices ''STM32L0'' = Some [''stm32l0x1'']"
    unfolding g y by (simp add: str_lower_def lower_char_def)
  moreover have "dict_get devices ''a.yaml'' = Some [''a'']"
    unfolding g y by (simp add: str_lower_def lower_char_def)
  moreover have "dict_get devices ''README.'' = None"
    unfolding g y by simp
  ultimately show ?thesis
    using d by blast
qed

section \<open>The feature block and the module block\<close>

text \<open>
  C4. The feature block and the module block of a list are those of any permutation of
  it, in particular those of the sorted list, and sorting a sorted list changes nothing.
\<close>

theorem blocks_invariant_under_order:
  assumes "mset ys = mset xs"
  shows "make_features ys = make_features (sorted_py xs) \<and>
         make_mods ys = make_mods (sorted_py xs) \<and>
         sorted_py (sorted_py xs) = sorted_py xs"
proof -
  have "sorted_py ys = sorted_py xs"
    using assms by (rule sorted_py_perm)
  then show ?thesis
    by (simp add: make_features_def make_mods_def sorted_py_idem)
qed

theorem blocks_invariant_under_order_witness:
  "make_features [''stm32f411'', ''stm32f401'', ''stm32f405''] =
     make_features (sorted_py [''stm32f405'', ''stm32f411'', ''stm32f401'']) \<and>
   make_mods [''stm32f411'', ''stm32f401'', ''stm32f405''] =
     make_mods (sorted_py [''stm32f405'', ''stm32f411'', ''stm32f401'']) \<and>
   make_features [''stm32f411'', ''stm32f401'', ''stm32f405''] =
     ''stm32f401 = []\<newline>stm32f405 = []\<newline>stm32f411 = []''"
proof -
  have m: "mset [''stm32f411'', ''stm32f401'', ''stm32f405''] =
           mset [''stm32f405'', ''stm32f411'', ''stm32f401'']"
    by simp
  have v: "make_features [''stm32f411'', ''stm32f401'', ''stm32f405''] =
     ''stm32f401 = []\<newline>stm32f405 = []\<newline>stm32f411 = []''"
    by (simp add: make_features_def sorted_py_def)
  show ?thesis
    using blocks_invariant_under_order [OF m] v by simp
qed

(* lines *)

lemma strip_feature_lines:
  "map (\<lambda>l. take (length l - 5) l)
     (filter (\<lambda>l. 5 \<le> length l \<and> drop (length l - 5) l = '' = []'')
        (map (\<lambda>d. d @ '' = []'') xs)) = xs"
  by (induction xs) auto

lemma feature_names_make_features:
  assumes "\<forall>d\<in>set ds. CHR ''\<newline>'' \<notin> set d"
  shows "feature_names (make_features ds) = sorted_py ds"
proof (cases "ds = []")
  case True
  then show ?thesis
    by (simp add: feature_names_def make_features_def sorted_py_def)
next
  case False
  let ?ls = "map (\<lambda>d. d @ '' = []'') (sorted_py ds)"
  have ne: "?ls \<noteq> []"
    using False by (simp add: sorted_py_Nil)
  have nl: "\<forall>l\<in>set ?ls. CHR ''\<newline>'' \<notin> set l"
    using assms by (auto simp: sorted_py_def)
  have "split_lines (make_features ds) = ?ls"
    unfolding make_features_def using ne nl by (rule split_lines_join)
  then show ?thesis
    by (simp only: feature_names_def strip_feature_lines)
qed

text \<open>
  C3, as amended. For device keys without a line break, the feature names that the block
  declares are the device keys in sorted order: the same set of names, each as often as
  it stands in the list, so exactly once when the list has no duplicates.
\<close>

theorem feature_names_are_the_device_keys:
  assumes "\<forall>d\<in>set ds. CHR ''\<newline>'' \<notin> set d"
  shows "feature_names (make_features ds) = sorted_py ds \<and>
         set (feature_names (make_features ds)) = set ds \<and>
         count_list (feature_names (make_features ds)) d = count_list ds d \<and>
         (distinct ds \<longrightarrow> distinct (feature_names (make_features ds)))"
proof -
  have eq: "feature_names (make_features ds) = sorted_py ds"
    using assms by (rule feature_names_make_features)
  show ?thesis
    unfolding eq by (simp add: count_list_sorted_py) (simp add: sorted_py_def)
qed

theorem feature_names_are_the_device_keys_witness:
  "feature_names (make_features [''stm32f411'', ''stm32f401'']) = [''stm32f401'', ''stm32f411''] \<and>
   count_list (feature_names (make_features [''stm32f411'', ''stm32f401''])) ''stm32f411'' = 1 \<and>
   distinct (feature_names (make_features [''stm32f411'', ''stm32f401'']))"
proof -
  have h: "\<forall>d\<in>set [''stm32f411'', ''stm32f401'']. CHR ''\<newline>'' \<notin> set d"
    by simp
  have s: "sorted_py [''stm32f411'', ''stm32f401''] = [''stm32f401'', ''stm32f411'']"
    by (simp add: sorted_py_def)
  show ?thesis
    using feature_names_are_the_device_keys [OF h, of "''stm32f411''"] s by simp
qed

text \<open>
  C3 as it is stated fails: a key that stands twice in the list is declared twice, and a
  key with a line break is not declared at all.
\<close>

theorem feature_names_counterexample:
  "count_list (feature_names (make_features [''stm32f4a'', ''stm32f4a''])) ''stm32f4a'' = 2 \<and>
   feature_names (make_features [''stm32f4\<newline>a'']) = [''a'']"
  by (simp add: feature_names_def make_features_def sorted_py_def)

section \<open>One family: the readme and the three files\<close>

lemma ex_prefix_base: "\<exists>A. T = A @ T"
  by (rule exI [of _ "[]"]) simp

lemma ex_prefix_step: "\<exists>A. y = A @ T \<Longrightarrow> \<exists>A. x @ y = A @ T"
  by (metis append_assoc)

lemma README_TPL_tail:
  "\<exists>A. README_TPL f c d v devs =
     A @ ''\<newline>'' @ ''## Supported Devices\<newline>'' @ ''\<newline>'' @ devs @ ''\<newline>''"
  unfolding README_TPL_def
  by (rule ex_prefix_base | rule ex_prefix_step)+

lemma split_lines_tail:
  "split_lines (A @ ''\<newline>'' @ ''## Supported Devices\<newline>'' @ ''\<newline>'' @ devs @ ''\<newline>'') =
   split_lines A @ [''## Supported Devices'', []] @ split_lines devs @ [[]]"
  by (simp add: split_lines_cut)

lemma upper_char_newline: "(upper_char c = CHR ''\<newline>'') = (c = CHR ''\<newline>'')"
  by (cases c) (auto simp: upper_char_def)

lemma bullet_spec_no_newline:
  assumes "CHR ''\<newline>'' \<notin> set d"
  shows "CHR ''\<newline>'' \<notin> set (bullet_spec d)"
proof
  assume "CHR ''\<newline>'' \<in> set (bullet_spec d)"
  then obtain c where c: "c \<in> set d"
    and "CHR ''\<newline>'' = (if upper_char c = CHR ''X'' then CHR ''x'' else upper_char c)"
    by (auto simp: bullet_spec_def)
  then have "upper_char c = CHR ''\<newline>''"
    by (simp split: if_splits)
  then have "c = CHR ''\<newline>''"
    by (simp only: upper_char_newline)
  with c assms show False by simp
qed

lemma bullet_spec_eq: "''* '' @ str_replace (str_upper d) CHR ''X'' CHR ''x'' = bullet_spec d"
  by (simp add: bullet_spec_def str_replace_def str_upper_def)

lemma readme_devices_bullets: "readme_devices devs = str_join ''\<newline>'' (map bullet_spec devs)"
  unfolding readme_devices_def bullet_spec_eq ..

lemma readme_devices_lines:
  assumes "devs \<noteq> []" "\<forall>d\<in>set devs. CHR ''\<newline>'' \<notin> set d"
  shows "split_lines (readme_devices devs) = map bullet_spec devs"
  unfolding readme_devices_bullets
  using assms by (intro split_lines_join) (auto simp: bullet_spec_no_newline)

lemma write_family_Returned:
  assumes "dict_get devices family = Some ds"
      and "snd (snd (write_family e devices family)) = Returned"
  shows "\<exists>device. first (sorted_py ds) = Inr device \<and>
     fst (snd (write_family e devices family)) =
       [Makedirs (path_join (str_lower family) [''src'']),
        WriteFile (path_join (str_lower family) [''Cargo.toml''])
          (CARGO_TOML_TPL (str_upper family) (str_lower family) VERSION
             (make_features (sorted_py ds))),
        WriteFile (path_join (str_lower family) [''README.md''])
          (README_TPL (str_upper family) (str_lower family) device VERSION
             (readme_devices (sorted_py ds))),
        WriteFile (path_join (str_lower family) [''src'', ''lib.rs''])
          (SRC_LIB_RS_TPL (str_upper family) (make_mods (sorted_py ds)))]"
  using assms
  by (auto simp: write_family_def render_def Let_def split: sum.splits if_splits)

text \<open>
  C5. When the round of a family completes, its key and device keys being ASCII, the
  readme it has written ends with the heading of the supported devices, an empty line
  and one bullet per device: the device key in upper case with every \<open>X\<close> turned
  into \<open>x\<close>, so that \<open>stm32f4xx\<close> gives \<open>* STM32F4xx\<close>; the bullets stand in
  the lexicographic order of the device keys. For keys without a line break these
  bullets are lines of the readme.
\<close>

theorem readme_lists_bullets_in_order:
  assumes "dict_get devices family = Some ds"
      and "snd (snd (write_family e devices family)) = Returned"
      and "is_ascii family"
      and "\<forall>d\<in>set ds. is_ascii d"
  shows "\<exists>cargo_toml readme lib_rs head.
           fst (snd (write_family e devices family)) =
             [Makedirs (path_join (str_lower family) [''src'']),
              WriteFile (path_join (str_lower family) [''Cargo.toml'']) cargo_toml,
              WriteFile (path_join (str_lower family) [''README.md'']) readme,
              WriteFile (path_join (str_lower family) [''src'', ''lib.rs'']) lib_rs] \<and>
           readme = head @ ''\<newline>## Supported Devices\<newline>\<newline>'' @
                      str_join ''\<newline>'' (map bullet_spec (sorted_py ds)) @ ''\<newline>'' \<and>
           ((\<forall>d\<in>set ds. CHR ''\<newline>'' \<notin> set d) \<longrightarrow>
              split_lines readme =
                split_lines head @ [''## Supported Devices'', []] @
                map bullet_spec (sorted_py ds) @ [[]]) \<and>
           sorted (sorted_py ds) \<and> mset (sorted_py ds) = mset ds \<and>
           bullet_spec ''stm32f4xx'' = ''* STM32F4xx''"
proof -
  obtain device where dev: "first (sorted_py ds) = Inr device"
    and evs: "fst (snd (write_family e devices family)) =
       [Makedirs (path_join (str_lower family) [''src'']),
        WriteFile (path_join (str_lower family) [''Cargo.toml''])
          (CARGO_TOML_TPL (str_upper family) (str_lower family) VERSION
             (make_features (sorted_py ds))),
        WriteFile (path_join (str_lower family) [''README.md''])
          (README_TPL (str_upper family) (str_lower family) device VERSION
             (readme_devices (sorted_py ds))),
        WriteFile (path_join (str_lower family) [''src'', ''lib.rs''])
          (SRC_LIB_RS_TPL (str_upper family) (make_mods (sorted_py ds)))]"
    using write_family_Returned [OF assms(1,2)] by blast
  let ?readme = "README_TPL (str_upper family) (str_lower family) device VERSION
             (readme_devices (sorted_py ds))"
  obtain head where tail: "?readme =
     head @ ''\<newline>'' @ ''## Supported Devices\<newline>'' @ ''\<newline>'' @
       readme_devices (sorted_py ds) @ ''\<newline>''"
    using README_TPL_tail by blast
  have rd: "?readme = head @ ''\<newline>## Supported Devices\<newline>\<newline>'' @
                      str_join ''\<newline>'' (map bullet_spec (sorted_py ds)) @ ''\<newline>''"
    using tail unfolding readme_devices_bullets by simp
  have lines: "split_lines ?readme =
                split_lines head @ [''## Supported Devices'', []] @
                map bullet_spec (sorted_py ds) @ [[]]"
    if nl: "\<forall>d\<in>set ds. CHR ''\<newline>'' \<notin> set d"
  proof -
    have "sorted_py ds \<noteq> []"
      using dev by (cases "sorted_py ds") auto
    moreover have "\<forall>d\<in>set (sorted_py ds). CHR ''\<newline>'' \<notin> set d"
      using nl by (simp add: sorted_py_def)
    ultimately have "split_lines (readme_devices (sorted_py ds)) = map bullet_spec (sorted_py ds)"
      by (rule readme_devices_lines)
    then show ?thesis
      unfolding tail split_lines_tail by simp
  qed
  have "sorted (sorted_py ds)" "mset (sorted_py ds) = mset ds"
    by (simp_all add: sorted_py_def)
  moreover have "bullet_spec ''stm32f4xx'' = ''* STM32F4xx''"
    by (simp add: bullet_spec_def upper_char_def)
  ultimately show ?thesis
    using evs rd lines by blast
qed

theorem readme_lists_bullets_in_order_witness:
  "\<exists>cargo_toml readme lib_rs head.
     fst (snd (write_family (sample_env [''devices''] [] (Line []))
        [(''STM32F4'', [''stm32f4xx'', ''stm32f401''])] ''STM32F4'')) =
       [Makedirs ''stm32f4/src'',
        WriteFile ''stm32f4/Cargo.toml'' cargo_toml,
        WriteFile ''stm32f4/README.md'' readme,
        WriteFile ''stm32f4/src/lib.rs'' lib_rs] \<and>
     readme = head @ ''\<newline>## Supported Devices\<newline>\<newline>* STM32F401\<newline>* STM32F4xx\<newline>'' \<and>
     split_lines readme =
       split_lines head @ [''## Supported Devices'', [], ''* STM32F401'', ''* STM32F4xx'', []]"
proof -
  let ?e = "sample_env [''devices''] [] (Line [])"
  let ?d = "[(''STM32F4'', [''stm32f4xx'', ''stm32f401''])]"
  have g: "dict_get ?d ''STM32F4'' = Some [''stm32f4xx'', ''stm32f401'']"
    by (simp add: dict_get_def)
  have s: "sorted_py [''stm32f4xx'', ''stm32f401''] = [''stm32f401'', ''stm32f4xx'']"
    by (simp add: sorted_py_def)
  have o: "snd (snd (write_family ?e ?d ''STM32F4'')) = Returned"
    by (simp add: write_family_def render_def dict_get_def sample_env_def Let_def s)
  have n: "\<forall>d\<in>set [''stm32f4xx'', ''stm32f401'']. CHR ''\<newline>'' \<notin> set d"
    by simp
  have p: "str_lower ''STM32F4'' = ''stm32f4''"
    "path_join ''stm32f4'' [''src''] = ''stm32f4/src''"
    "path_join ''stm32f4'' [''Cargo.toml''] = ''stm32f4/Cargo.toml''"
    "path_join ''stm32f4'' [''README.md''] = ''stm32f4/README.md''"
    "path_join ''stm32f4'' [''src'', ''lib.rs''] = ''stm32f4/src/lib.rs''"
    by (simp_all add: str_lower_def lower_char_def path_join_def join_step_def)
  have b: "map bullet_spec [''stm32f401'', ''stm32f4xx''] = [''* STM32F401'', ''* STM32F4xx'']"
    by (simp add: bullet_spec_def upper_char_def)
  have a: "is_ascii ''STM32F4''" "\<forall>d\<in>set [''stm32f4xx'', ''stm32f401'']. is_ascii d"
    by (simp_all add: is_ascii_def)
  from readme_lists_bullets_in_order [OF g o a]
  obtain cargo_toml readme lib_rs head where
    ev: "fst (snd (write_family ?e ?d ''STM32F4'')) =
       [Makedirs ''stm32f4/src'',
        WriteFile ''stm32f4/Cargo.toml'' cargo_toml,
        WriteFile ''stm32f4/README.md'' readme,
        WriteFile ''stm32f4/src/lib.rs'' lib_rs]"
    and rd: "readme = head @ ''\<newline>## Supported Devices\<newline>\<newline>'' @
                 str_join ''\<newline>'' [''* STM32F401'', ''* STM32F4xx''] @ ''\<newline>''"
    and lines: "(\<forall>d\<in>set [''stm32f4xx'', ''stm32f401'']. CHR ''\<newline>'' \<notin> set d) \<longrightarrow>
       split_lines readme =
         split_lines head @ [''## Supported Devices'', []] @
         [''* STM32F401'', ''* STM32F4xx''] @ [[]]"
    unfolding s p b by blast
  have "readme = head @ ''\<newline>## Supported Devices\<newline>\<newline>* STM32F401\<newline>* STM32F4xx\<newline>''"
    unfolding rd by simp
  moreover have "split_lines readme =
       split_lines head @ [''## Supported Devices'', [], ''* STM32F401'', ''* STM32F4xx'', []]"
    using lines n by simp
  ultimately show ?thesis
    using ev by blast
qed

lemma render_cases:
  "render f devs version = Inl IndexError \<or>
   (\<exists>cargo_toml readme lib_rs. render f devs version = Inr (cargo_toml, readme, lib_rs))"
  by (cases devs) (simp_all add: render_def Let_def)

lemma write_family_prefix:
  assumes "dict_get d f = Some ds"
  shows "case render f (sorted_py ds) VERSION of
           Inl err \<Rightarrow> fst (snd (write_family e d f)) = []
         | Inr (cargo_toml, readme, lib_rs) \<Rightarrow>
             prefix (fst (snd (write_family e d f)))
               [Makedirs (path_join (str_lower f) [''src'']),
                WriteFile (path_join (str_lower f) [''Cargo.toml'']) cargo_toml,
                WriteFile (path_join (str_lower f) [''README.md'']) readme,
                WriteFile (path_join (str_lower f) [''src'', ''lib.rs'']) lib_rs]"
  using assms by (auto simp: write_family_def Let_def split: sum.splits)

text \<open>
  C2. What a round writes for a family depends on the family key, its device list and
  the version alone. Take two rounds for the same family with the same device list, in
  any two environments and with any two dictionaries around that list: both emit a
  prefix of one and the same list of events (all of it when no write fails), which is
  the making of the directory and the three files with the texts that \<open>render\<close>
  computes; \<open>render\<close> has no access to the environment, and a round emits nothing but
  these writes.
\<close>

theorem rendering_is_deterministic:
  assumes "dict_get d1 f = Some ds" and "dict_get d2 f = Some ds"
  shows "\<exists>full.
     prefix (fst (snd (write_family e1 d1 f))) full \<and>
     prefix (fst (snd (write_family e2 d2 f))) full \<and>
     filter is_write full = full \<and>
     (render f (sorted_py ds) VERSION = Inl IndexError \<and> full = [] \<or>
      (\<exists>cargo_toml readme lib_rs.
         render f (sorted_py ds) VERSION = Inr (cargo_toml, readme, lib_rs) \<and>
         full = [Makedirs (path_join (str_lower f) [''src'']),
                 WriteFile (path_join (str_lower f) [''Cargo.toml'']) cargo_toml,
                 WriteFile (path_join (str_lower f) [''README.md'']) readme,
                 WriteFile (path_join (str_lower f) [''src'', ''lib.rs'']) lib_rs]))"
proof -
  consider "render f (sorted_py ds) VERSION = Inl IndexError"
    | cargo_toml readme lib_rs
      where "render f (sorted_py ds) VERSION = Inr (cargo_toml, readme, lib_rs)"
    using render_cases by blast
  then show ?thesis
  proof cases
    case 1
    then show ?thesis
      using write_family_prefix [OF assms(1), of e1] write_family_prefix [OF assms(2), of e2]
      by simp
  next
    case 2
    let ?full = "[Makedirs (path_join (str_lower f) [''src'']),
                 WriteFile (path_join (str_lower f) [''Cargo.toml'']) cargo_toml,
                 WriteFile (path_join (str_lower f) [''README.md'']) readme,
                 WriteFile (path_join (str_lower f) [''src'', ''lib.rs'']) lib_rs]"
    have "prefix (fst (snd (write_family e1 d1 f))) ?full"
      "prefix (fst (snd (write_family e2 d2 f))) ?full"
      using write_family_prefix [OF assms(1), of e1] write_family_prefix [OF assms(2), of e2]
      by (simp_all add: 2)
    moreover have "filter is_write ?full = ?full"
      by simp
    ultimately show ?thesis
      using 2 by blast
  qed
qed

theorem rendering_is_deterministic_witness:
  "\<exists>full.
     prefix (fst (snd (write_family (sample_env [''devices''] [''stm32f401.yaml''] (Line []))
        [(''stm32f4'', [''stm32f411'', ''stm32f401''])] ''stm32f4''))) full \<and>
     prefix (fst (snd (write_family (sample_env [''elsewhere''] [] (Line ''yes''))
        [(''stm32l0'', [''stm32l0x1'']), (''stm32f4'', [''stm32f411'', ''stm32f401''])]
        ''stm32f4''))) full \<and>
     filter is_write full = full \<and> length full = 4"
proof -
  have 1: "dict_get [(''stm32f4'', [''stm32f411'', ''stm32f401''])] ''stm32f4'' =
             Some [''stm32f411'', ''stm32f401'']"
    and 2: "dict_get [(''stm32l0'', [''stm32l0x1'']), (''stm32f4'', [''stm32f411'', ''stm32f401''])]
             ''stm32f4'' = Some [''stm32f411'', ''stm32f401'']"
    by (simp_all add: dict_get_def)
  have s: "sorted_py [''stm32f411'', ''stm32f401''] = [''stm32f401'', ''stm32f411'']"
    by (simp add: sorted_py_def)
  have r: "render ''stm32f4'' (sorted_py [''stm32f411'', ''stm32f401'']) VERSION \<noteq> Inl IndexError"
    unfolding s by (simp add: render_def Let_def)
  show ?thesis
    using rendering_is_deterministic [OF 1 2,
        of "sample_env [''devices''] [''stm32f401.yaml''] (Line [])"
           "sample_env [''elsewhere''] [] (Line ''yes'')"] r
    by auto
qed

section \<open>The second loop never misses a device\<close>

lemma write_family_dict:
  "dict_get devices family = Some ds \<Longrightarrow>
   fst (write_family e devices family) = dict_set devices family (sorted_py ds)"
  by (simp add: write_family_def Let_def split: sum.splits prod.splits)

lemma write_family_outcome:
  assumes "dict_get devices family = Some ds" "ds \<noteq> []"
  shows "snd (snd (write_family e devices family)) = Returned \<or>
         snd (snd (write_family e devices family)) = Raised OSError"
proof -
  obtain device where "first (sorted_py ds) = Inr device"
    using first_sorted_py_Min [OF assms(2)] by blast
  then show ?thesis
    using assms(1) by (simp add: write_family_def render_def Let_def)
qed

lemma write_families_outcome:
  assumes "\<forall>k\<in>set ks. dict_get devices k \<noteq> None"
      and "\<forall>k ds. dict_get devices k = Some ds \<longrightarrow> ds \<noteq> []"
  shows "snd (write_families e devices ks) = Returned \<or>
         snd (write_families e devices ks) = Raised OSError"
  using assms
proof (induction ks arbitrary: devices)
  case Nil
  show ?case by simp
next
  case (Cons k ks)
  then obtain ds where ds: "dict_get devices k = Some ds" "ds \<noteq> []"
    by fastforce
  let ?devices = "dict_set devices k (sorted_py ds)"
  have d': "fst (write_family e devices k) = ?devices"
    using ds(1) by (rule write_family_dict)
  have keys: "\<forall>k'\<in>set ks. dict_get ?devices k' \<noteq> None"
    using Cons.prems(1) by (simp add: dict_get_set)
  have lists: "\<forall>k' ds'. dict_get ?devices k' = Some ds' \<longrightarrow> ds' \<noteq> []"
    using Cons.prems(2) ds(2) by (auto simp: dict_get_set sorted_py_Nil)
  have rest: "snd (write_families e ?devices ks) = Returned \<or>
              snd (write_families e ?devices ks) = Raised OSError"
    using keys lists by (rule Cons.IH)
  have here: "snd (snd (write_family e devices k)) = Returned \<or>
              snd (snd (write_family e devices k)) = Raised OSError"
    using ds by (rule write_family_outcome)
  obtain d1 evs out where w: "write_family e devices k = (d1, evs, out)"
    by (cases "write_family e devices k") auto
  show ?case
    using d' rest here by (auto simp: w split: prod.splits)
qed

lemma confirm_events_quiet: "filter is_write (confirm_events dir devices) = []"
  by (simp add: confirm_events_def)

lemma main_Line:
  assumes "length (argv e) = 2" "discover [] (glob_yaml e (argv e ! 1)) = Inr devices"
    "operator e = Line s"
  shows "main e = (confirm_events (argv e ! 1) devices @
                     fst (write_families e devices (dict_keys devices)),
                   snd (write_families e devices (dict_keys devices)))"
  using assms by (simp add: main_def Let_def split: prod.splits)

text \<open>
  C10. Every family of the discovered dictionary has a device list that is not empty, so
  that the first element of its sorted list exists and is the smallest device key; the
  run of \<open>main\<close> never ends in an \<open>IndexError\<close>, nor in a \<open>KeyError\<close>.
\<close>

theorem first_device_always_exists:
  assumes "length (argv e) = 2"
  shows "snd (main e) \<noteq> Raised IndexError \<and> snd (main e) \<noteq> Raised KeyError \<and>
    (\<exists>devices. discover [] (glob_yaml e (argv e ! 1)) = Inr devices \<and>
       (\<forall>f ds. dict_get devices f = Some ds \<longrightarrow>
          ds \<noteq> [] \<and> first (sorted_py ds) = Inr (Min (set ds))))"
proof -
  obtain devices where d: "discover [] (glob_yaml e (argv e ! 1)) = Inr devices"
    using discover_total by blast
  have ne: "\<forall>f ds. dict_get devices f = Some ds \<longrightarrow> ds \<noteq> []"
    using discover_lists_nonempty [OF d] by blast
  have keys: "\<forall>k\<in>set (dict_keys devices). dict_get devices k \<noteq> None"
    by (simp add: dict_keys_get)
  have w: "snd (write_families e devices (dict_keys devices)) = Returned \<or>
           snd (write_families e devices (dict_keys devices)) = Raised OSError"
    using keys ne by (rule write_families_outcome)
  have "snd (main e) \<noteq> Raised IndexError \<and> snd (main e) \<noteq> Raised KeyError"
  proof (cases "operator e")
    case (Line s)
    show ?thesis
      unfolding main_Line [OF assms d Line] using w by auto
  next
    case CtrlC
    then show ?thesis using assms d by (simp add: main_def)
  next
    case EndOfInput
    then show ?thesis using assms d by (simp add: main_def)
  qed
  then show ?thesis
    using d ne first_sorted_py_Min by blast
qed

theorem first_device_always_exists_witness:
  "snd (main (sample_env [''devices''] [''stm32f411.yaml'', ''stm32f401.yaml''] (Line []))) \<noteq>
     Raised IndexError \<and>
   (\<exists>devices.
      discover [] (glob_yaml (sample_env [''devices''] [''stm32f411.yaml'', ''stm32f401.yaml'']
         (Line [])) ''devices'') = Inr devices \<and>
      dict_get devices ''stm32f4'' = Some [''stm32f411'', ''stm32f401''] \<and>
      first (sorted_py [''stm32f411'', ''stm32f401'']) = Inr ''stm32f401'')"
proof -
  let ?e = "sample_env [''devices''] [''stm32f411.yaml'', ''stm32f401.yaml''] (Line [])"
  have a: "length (argv ?e) = 2" "argv ?e ! 1 = ''devices''"
    by (simp_all add: sample_env_def)
  have run: "discover [] (glob_yaml ?e ''devices'') =
               Inr [(''stm32f4'', [''stm32f411'', ''stm32f401''])]"
    by (simp add: glob_yaml_def sample_env_def yaml_names_def is_hidden_def fnmatch_yaml_def
        path_join_def join_step_def group_file_def basename_def splitext_def dict_contains_def
        dict_get_def str_lower_def lower_char_def Let_def)
  from first_device_always_exists [OF a(1)]
  obtain devices where n: "snd (main ?e) \<noteq> Raised IndexError"
    and d: "discover [] (glob_yaml ?e ''devices'') = Inr devices"
    and f: "\<And>f ds. dict_get devices f = Some ds \<Longrightarrow>
          ds \<noteq> [] \<and> first (sorted_py ds) = Inr (Min (set ds))"
    unfolding a(2) by blast
  have g: "dict_get devices ''stm32f4'' = Some [''stm32f411'', ''stm32f401'']"
    using d run by (auto simp: dict_get_def)
  have m: "Min (set [''stm32f411'', ''stm32f401'']) = ''stm32f401''"
    by simp
  show ?thesis
    using n d g f [OF g] unfolding m by blast
qed

section \<open>The confirmation gate\<close>

text \<open>
  C7. A run of \<open>main\<close> first lists the directory, prints the heading and the family
  directories (each family key in lower case, followed by a slash, separated by commas)
  and prompts; none of these four events writes. On an interrupt at the prompt the run
  ends there with \<open>KeyboardInterrupt\<close>, and nothing has been written. On a line of
  input, whatever it says, the run goes on with the second loop, whose events follow the
  prompt; when there is a family and its directory can be made, the very next event
  makes it.
\<close>

theorem no_write_before_confirmation:
  assumes "length (argv e) = 2"
  shows "\<exists>devices. discover [] (glob_yaml e (argv e ! 1)) = Inr devices \<and>
    (case operator e of
       Line s \<Rightarrow>
         main e = (confirm_events (argv e ! 1) devices @
                     fst (write_families e devices (dict_keys devices)),
                   snd (write_families e devices (dict_keys devices)))
     | CtrlC \<Rightarrow> main e = (confirm_events (argv e ! 1) devices, Raised KeyboardInterrupt)
     | EndOfInput \<Rightarrow> main e = (confirm_events (argv e ! 1) devices, Raised EOFError)) \<and>
    filter is_write (confirm_events (argv e ! 1) devices) = [] \<and>
    confirm_events (argv e ! 1) devices =
      [Scandir (argv e ! 1),
       Stdout ''Going to create/update the following directories:'',
       Stdout (str_join '', '' (map (\<lambda>f. str_lower f @ ''/'') (dict_keys devices))),
       Prompt ''Enter to continue, ctrl-C to cancel''] \<and>
    (operator e = CtrlC \<longrightarrow> filter is_write (fst (main e)) = []) \<and>
    (\<forall>family rest. dict_keys devices = family # rest \<longrightarrow>
       (\<exists>s. operator e = Line s) \<longrightarrow>
       makedirs_ok e (path_join (str_lower family) [''src'']) \<longrightarrow>
       fst (main e) ! 4 = Makedirs (path_join (str_lower family) [''src'']))"
proof -
  obtain devices where d: "discover [] (glob_yaml e (argv e ! 1)) = Inr devices"
    using discover_total by blast
  let ?pre = "confirm_events (argv e ! 1) devices"
  have 1: "case operator e of
       Line s \<Rightarrow>
         main e = (?pre @ fst (write_families e devices (dict_keys devices)),
                   snd (write_families e devices (dict_keys devices)))
     | CtrlC \<Rightarrow> main e = (?pre, Raised KeyboardInterrupt)
     | EndOfInput \<Rightarrow> main e = (?pre, Raised EOFError)"
    using assms d by (simp add: main_def Let_def split: reply.splits prod.splits)
  have 2: "operator e = CtrlC \<longrightarrow> filter is_write (fst (main e)) = []"
    using 1 by (auto simp: confirm_events_quiet)
  have 3: "fst (main e) ! 4 = Makedirs (path_join (str_lower family) [''src''])"
    if k: "dict_keys devices = family # rest" and o: "operator e = Line s"
      and ok: "makedirs_ok e (path_join (str_lower family) [''src''])" for family rest s
  proof -
    have "family \<in> set (dict_keys devices)"
      by (simp add: k)
    then obtain ds where ds: "dict_get devices family = Some ds"
      by (auto simp: dict_keys_get)
    then have "ds \<noteq> []"
      using discover_lists_nonempty [OF d] by blast
    then obtain device where dev: "first (sorted_py ds) = Inr device"
      using first_sorted_py_Min by blast
    have "\<exists>evs. fst (snd (write_family e devices family)) =
             Makedirs (path_join (str_lower family) [''src'']) # evs"
      using ds dev ok by (simp add: write_family_def render_def Let_def)
    then have "\<exists>evs. fst (write_families e devices (dict_keys devices)) =
             Makedirs (path_join (str_lower family) [''src'']) # evs"
      unfolding k by (auto split: prod.splits)
    then show ?thesis
      unfolding main_Line [OF assms d o] by (auto simp: confirm_events_def)
  qed
  show ?thesis
    using d 1 2 3 confirm_events_quiet [of "argv e ! 1" devices]
    unfolding confirm_events_def [of "argv e ! 1" devices, symmetric]
    by (intro exI [of _ devices] conjI) (auto simp: confirm_events_def)
qed

theorem no_write_before_confirmation_witness:
  "main (sample_env [''devices''] [''stm32f411.yaml'', ''stm32f401.yaml''] CtrlC) =
     ([Scandir ''devices'',
       Stdout ''Going to create/update the following directories:'',
       Stdout ''stm32f4/'',
       Prompt ''Enter to continue, ctrl-C to cancel''], Raised KeyboardInterrupt) \<and>
   fst (main (sample_env [''devices''] [''stm32f411.yaml'', ''stm32f401.yaml''] (Line ''y''))) ! 4 =
     Makedirs ''stm32f4/src''"
proof -
  let ?names = "[''stm32f411.yaml'', ''stm32f401.yaml'']"
  let ?c = "sample_env [''devices''] ?names CtrlC"
  let ?l = "sample_env [''devices''] ?names (Line ''y'')"
  have a: "length (argv ?c) = 2" "argv ?c ! 1 = ''devices''" "operator ?c = CtrlC"
    "length (argv ?l) = 2" "argv ?l ! 1 = ''devices''" "operator ?l = Line ''y''"
    "makedirs_ok ?l ''stm32f4/src''"
    by (simp_all add: sample_env_def)
  have g: "glob_yaml ?c ''devices'' = [''devices/stm32f411.yaml'', ''devices/stm32f401.yaml'']"
    "glob_yaml ?l ''devices'' = [''devices/stm32f411.yaml'', ''devices/stm32f401.yaml'']"
    by (simp_all add: glob_yaml_def sample_env_def yaml_names_def is_hidden_def fnmatch_yaml_def
        path_join_def join_step_def)
  have run: "discover [] [''devices/stm32f411.yaml'', ''devices/stm32f401.yaml''] =
               Inr [(''stm32f4'', [''stm32f411'', ''stm32f401''])]"
    by (simp add: group_file_def basename_def splitext_def dict_contains_def
        dict_get_def str_lower_def lower_char_def Let_def)
  have k: "dict_keys [(''stm32f4'', [''stm32f411'', ''stm32f401''])] = [''stm32f4'']"
    "str_lower ''stm32f4'' = ''stm32f4''" "path_join ''stm32f4'' [''src''] = ''stm32f4/src''"
    by (simp_all add: dict_keys_def str_lower_def lower_char_def path_join_def join_step_def)
  have 1: "main ?c =
     ([Scandir ''devices'',
       Stdout ''Going to create/update the following directories:'',
       Stdout ''stm32f4/'',
       Prompt ''Enter to continue, ctrl-C to cancel''], Raised KeyboardInterrupt)"
    using no_write_before_confirmation [OF a(1)]
    unfolding a g run by (auto simp: k)
  have 2: "fst (main ?l) ! 4 = Makedirs ''stm32f4/src''"
    using no_write_before_confirmation [OF a(4)] a(7)
    unfolding a(5,6) g run by (auto simp: k)
  show ?thesis
    using 1 2 by simp
qed




section \<open>Where the families are written\<close>

lemma touched_write_family:
  "touched (fst (snd (write_family e devices family))) \<subseteq>
     {path_join (str_lower family) [''src''],
      path_join (str_lower family) [''Cargo.toml''],
      path_join (str_lower family) [''README.md''],
      path_join (str_lower family) [''src'', ''lib.rs'']}"
  by (auto simp: write_family_def Let_def split: option.splits sum.splits prod.splits)

text \<open>
  C9, as amended. Two discovered ASCII family keys whose lower-case forms differ are
  written to different places: no path that the round of one family touches is touched
  by the round of the other.
\<close>

theorem families_with_distinct_crates_write_apart:
  assumes "discover [] paths = Inr devices"
      and "f1 \<in> set (dict_keys devices)" and "f2 \<in> set (dict_keys devices)"
      and "str_lower f1 \<noteq> str_lower f2"
      and "is_ascii f1" and "is_ascii f2"
  shows "touched (fst (snd (write_family e1 d1 f1))) \<inter>
         touched (fst (snd (write_family e2 d2 f2))) = {}"
proof -
  have "CHR ''/'' \<notin> set (str_lower f1)" "CHR ''/'' \<notin> set (str_lower f2)"
    using assms(1-3) by (simp_all add: discovered_key_no_slash str_lower_no_slash)
  then have "{path_join (str_lower f1) [''src''], path_join (str_lower f1) [''Cargo.toml''],
          path_join (str_lower f1) [''README.md''], path_join (str_lower f1) [''src'', ''lib.rs'']} \<inter>
         {path_join (str_lower f2) [''src''], path_join (str_lower f2) [''Cargo.toml''],
          path_join (str_lower f2) [''README.md''], path_join (str_lower f2) [''src'', ''lib.rs'']} = {}"
    using assms(4) by (rule crate_touched_apart)
  then show ?thesis
    using touched_write_family [of e1 d1 f1] touched_write_family [of e2 d2 f2] by blast
qed

theorem families_with_distinct_crates_write_apart_witness:
  "discover [] [''devices/stm32f401.yaml'', ''devices/stm32l0x1.yaml''] =
     Inr [(''stm32f4'', [''stm32f401'']), (''stm32l0'', [''stm32l0x1''])] \<and>
   touched (fst (snd (write_family (sample_env [''devices''] [] (Line []))
      [(''stm32f4'', [''stm32f401'']), (''stm32l0'', [''stm32l0x1''])] ''stm32f4''))) \<inter>
   touched (fst (snd (write_family (sample_env [''devices''] [] (Line []))
      [(''stm32f4'', [''stm32f401'']), (''stm32l0'', [''stm32l0x1''])] ''stm32l0''))) = {}"
proof -
  let ?d = "[(''stm32f4'', [''stm32f401'']), (''stm32l0'', [''stm32l0x1''])]"
  have run: "discover [] [''devices/stm32f401.yaml'', ''devices/stm32l0x1.yaml''] = Inr ?d"
    by (simp add: group_file_def basename_def splitext_def dict_contains_def
        dict_get_def str_lower_def lower_char_def Let_def)
  have k: "''stm32f4'' \<in> set (dict_keys ?d)" "''stm32l0'' \<in> set (dict_keys ?d)"
    by (simp_all add: dict_keys_def)
  have l: "str_lower ''stm32f4'' \<noteq> str_lower ''stm32l0''"
    by (simp add: str_lower_def lower_char_def)
  have a: "is_ascii ''stm32f4''" "is_ascii ''stm32l0''"
    by (simp_all add: is_ascii_def)
  show ?thesis
    using families_with_distinct_crates_write_apart [OF run k l a] run by simp
qed

text \<open>
  C9 as it is stated fails: two family keys that differ in case only are different keys
  of the dictionary, and their rounds write the same four paths.
\<close>

theorem families_share_a_directory_counterexample:
  "discover [] [''devices/STM32F401.yaml'', ''devices/stm32f411.yaml''] =
     Inr [(''STM32F4'', [''stm32f401'']), (''stm32f4'', [''stm32f411''])] \<and>
   ''STM32F4'' \<noteq> ''stm32f4'' \<and>
   touched (fst (snd (write_family (sample_env [''devices''] [] (Line []))
      [(''STM32F4'', [''stm32f401'']), (''stm32f4'', [''stm32f411''])] ''STM32F4''))) =
     {''stm32f4/src'', ''stm32f4/Cargo.toml'', ''stm32f4/README.md'', ''stm32f4/src/lib.rs''} \<and>
   touched (fst (snd (write_family (sample_env [''devices''] [] (Line []))
      [(''STM32F4'', [''stm32f401'']), (''stm32f4'', [''stm32f411''])] ''stm32f4''))) =
     {''stm32f4/src'', ''stm32f4/Cargo.toml'', ''stm32f4/README.md'', ''stm32f4/src/lib.rs''}"
proof -
  have run: "discover [] [''devices/STM32F401.yaml'', ''devices/stm32f411.yaml''] =
     Inr [(''STM32F4'', [''stm32f401'']), (''stm32f4'', [''stm32f411''])]"
    by (simp add: group_file_def basename_def splitext_def dict_contains_def
        dict_get_def str_lower_def lower_char_def Let_def)
  have p: "str_lower ''STM32F4'' = ''stm32f4''" "str_lower ''stm32f4'' = ''stm32f4''"
    "path_join ''stm32f4'' [''src''] = ''stm32f4/src''"
    "path_join ''stm32f4'' [''Cargo.toml''] = ''stm32f4/Cargo.toml''"
    "path_join ''stm32f4'' [''README.md''] = ''stm32f4/README.md''"
    "path_join ''stm32f4'' [''src'', ''lib.rs''] = ''stm32f4/src/lib.rs''"
    by (simp_all add: str_lower_def lower_char_def path_join_def join_step_def)
  have s: "sorted_py [''stm32f401''] = [''stm32f401'']" "sorted_py [''stm32f411''] = [''stm32f411'']"
    by (simp_all add: sorted_py_def)
  have w: "touched (fst (snd (write_family (sample_env [''devices''] [] (Line []))
      [(''STM32F4'', [''stm32f401'']), (''stm32f4'', [''stm32f411''])] ''STM32F4''))) =
     {''stm32f4/src'', ''stm32f4/Cargo.toml'', ''stm32f4/README.md'', ''stm32f4/src/lib.rs''}"
    "touched (fst (snd (write_family (sample_env [''devices''] [] (Line []))
      [(''STM32F4'', [''stm32f401'']), (''stm32f4'', [''stm32f411''])] ''stm32f4''))) =
     {''stm32f4/src'', ''stm32f4/Cargo.toml'', ''stm32f4/README.md'', ''stm32f4/src/lib.rs''}"
    by (simp_all add: write_family_def render_def dict_get_def sample_env_def Let_def p s)
  show ?thesis
    using run w by simp
qed

end
